theory Spec2Isabelle
  imports Complex_Main
begin

section \<open>Bifurcation analysis of astrocyte.py\<close>

text \<open>
  The development embeds the function \<open>Biforcation\<close> of
  \<^verbatim>\<open>Astrocyte-Neuron_Interactions/Astrocyte/astrocyte.py\<close> together with the
  library calls it is made of: \<open>np.linspace\<close>, the slice \<open>X[t_relax:]\<close> and
  \<open>scipy.signal.argrelextrema\<close> are modelled, \<open>np.arange\<close> and
  \<open>integrate.odeint\<close> are parameters.

  Conventions of the embedding:
  \<^item> a float is a \<open>real\<close>: rounding and NaN are not modelled;
  \<^item> a one-dimensional array and a Python list are a HOL list;
  \<^item> a trajectory (the array of shape \<open>(len(t), 2)\<close> that \<open>odeint\<close> returns
    for the two-component initial state \<open>X0\<close>) is a list of pairs;
  \<^item> an exception is a value \<open>Inl e\<close> of the sum type \<open>error + 'a\<close>;
  \<^item> \<open>odeint\<close> is an external collaborator: it is a parameter of the engine, and so
    is the opaque \<open>model\<close> that is handed through to it;
  \<^item> \<open>np.arange\<close> is a parameter of the engine as well: the length of the grid it
    returns comes from a quotient taken in double precision, and the call raises
    for a grid too large to allocate, which real arithmetic does not reproduce.
    The theorems hold for whatever it returns or raises.
\<close>

subsection \<open>Errors and collaborators\<close>

datatype error =
    ValueError          \<comment> \<open>\<open>np.linspace\<close>: number of samples must be non-negative\<close>
  | ZeroDivisionError   \<comment> \<open>a grid builder dividing by a zero step\<close>
  | OdeintError         \<comment> \<open>whatever exception the integrator call lets escape\<close>

type_synonym trajectory = "(real \<times> real) list"

type_synonym grid_builder = "real \<Rightarrow> real \<Rightarrow> real \<Rightarrow> error + real list"

type_synonym 'm integrator =
  "'m \<Rightarrow> real \<times> real \<Rightarrow> real list \<Rightarrow> real \<Rightarrow> error + trajectory"

subsection \<open>numpy: linspace, slicing\<close>

text \<open>
  \<open>np.linspace(start, stop, num)\<close> with \<open>endpoint=True\<close>:
  \<^verbatim>\<open>
    if num < 0: raise ValueError(...)
    div = num - 1
    delta = stop - start
    y = arange(0, num)
    if div > 0:
        step = delta / div
        if step == 0: y = y / div; y = y * delta
        else:         y = y * step
    else:
        y = y * delta
    y += start
    if num > 1: y[-1] = stop
  \<close>
\<close>

definition linspace :: "real \<Rightarrow> real \<Rightarrow> int \<Rightarrow> error + real list" where
  "linspace start stop num =
     (if num < 0 then Inl ValueError
      else let n = nat num;
               dv = num - 1;
               delta = stop - start;
               y = map real [0..<n];
               y = (if dv > 0
                    then (let step = delta / real_of_int dv
                          in if step = 0 then map (\<lambda>v. v / real_of_int dv * delta) y
                             else map (\<lambda>v. v * step) y)
                    else map (\<lambda>v. v * delta) y);
               y = map (\<lambda>v. v + start) y
           in Inr (if num > 1 then y[n - 1 := stop] else y))"

text \<open>
  The slice \<open>xs[start:]\<close> for an integer \<open>start\<close>: a negative \<open>start\<close> counts
  from the end, and both ends clamp, so the slice never raises.
\<close>

definition slice_from :: "'a list \<Rightarrow> int \<Rightarrow> 'a list" where
  "slice_from xs start =
     (let n = int (length xs);
          s = (if start < 0 then max (n + start) 0 else min start n)
      in drop (nat s) xs)"

subsection \<open>scipy.signal.argrelextrema\<close>

text \<open>
  \<open>data.take(idx, mode='clip')\<close>: an index below 0 reads element 0, an index
  above the last reads the last element.
\<close>

definition take_clip :: "real list \<Rightarrow> int list \<Rightarrow> real list" where
  "take_clip data idx =
     map (\<lambda>j. data ! nat (min (max j 0) (int (length data) - 1))) idx"

text \<open>
  \<open>_boolrelextrema(data, comparator, order=1, mode='clip')\<close>:
  \<^verbatim>\<open>
    datalen = data.shape[axis]
    locs = np.arange(0, datalen)
    results = np.ones(data.shape, dtype=bool)
    main = data.take(locs, mode=mode)
    for shift in range(1, order + 1):
        plus = data.take(locs + shift, mode=mode)
        minus = data.take(locs - shift, mode=mode)
        results &= comparator(main, plus)
        results &= comparator(main, minus)
        if ~results.any(): return results
    return results
  \<close>
  and \<open>argrelextrema\<close> is \<open>np.nonzero\<close> of that.
\<close>

definition boolrelextrema :: "real list \<Rightarrow> (real \<Rightarrow> real \<Rightarrow> bool) \<Rightarrow> bool list" where
  "boolrelextrema data comparator =
     (let datalen = length data;
          locs = map int [0..<datalen];
          main = take_clip data locs;
          plus = take_clip data (map (\<lambda>l. l + 1) locs);
          minus = take_clip data (map (\<lambda>l. l - 1) locs)
      in map (\<lambda>(m, p, q). comparator m p \<and> comparator m q) (zip main (zip plus minus)))"

definition argrelextrema :: "real list \<Rightarrow> (real \<Rightarrow> real \<Rightarrow> bool) \<Rightarrow> nat list" where
  "argrelextrema data comparator =
     (let results = boolrelextrema data comparator
      in filter (\<lambda>i. results ! i) [0..<length results])"

text \<open>The two comparators the source passes: \<open>np.greater\<close> and \<open>np.less\<close>.\<close>

definition greater :: "real \<Rightarrow> real \<Rightarrow> bool" where
  "greater a b = (a > b)"

definition less_cmp :: "real \<Rightarrow> real \<Rightarrow> bool" where
  "less_cmp a b = (a < b)"

subsection \<open>Biforcation\<close>

text \<open>
  The body of the function (lines 129 to 153 of the source file):
  \<^verbatim>\<open>
    t = np.arange(t0, t_stop, dt)
    X0 = np.array([0.2,0.2])
    I_list = list()
    Bif_list = list()
    for i in np.linspace(par_start, par_stop, par_tot):
        sol  = integrate.odeint(model, X0, t, args=(i,))
        X = sol[:,0]
        Y = sol[:,1]
        X = X[t_relax:]
        max_loc = argrelextrema(X, np.greater)
        min_loc = argrelextrema(X, np.less)
        X_max = X[max_loc].tolist()
        X_min = X[min_loc].tolist()
        Bif_val = X_max + X_min
        I_x = [i for item in range(len(Bif_val))]
        I_list.append(I_x)
        Bif_list.append(Bif_val)
    return I_list, Bif_list
  \<close>
  The docstring gives \<open>par_tot\<close> as an integer and \<open>t_relax\<close> as a negative
  integer; both are \<open>int\<close> here, of either sign, and the theorems say which
  sign they need.
\<close>

text \<open>\<open>X0 = np.array([0.2,0.2])\<close>\<close>

definition X0 :: "real \<times> real" where
  "X0 = (2 / 10, 2 / 10)"

text \<open>
  Lines 137 to 139: \<open>X = sol[:,0]\<close>, \<open>Y = sol[:,1]\<close>, \<open>X = X[t_relax:]\<close>.
  The result is the sequence handed to \<open>argrelextrema\<close>.
\<close>

definition relax_window :: "trajectory \<Rightarrow> int \<Rightarrow> real list" where
  "relax_window sol t_relax =
     (let X = map fst sol;
          Y = map snd sol
      in slice_from X t_relax)"

text \<open>
  Lines 141 to 146: both detector calls, the values at the detected places,
  \<open>Bif_val = X_max + X_min\<close>.
\<close>

definition Bif_val_of :: "real list \<Rightarrow> real list" where
  "Bif_val_of X =
     (let max_loc = argrelextrema X greater;
          min_loc = argrelextrema X less_cmp;
          X_max = map (\<lambda>j. X ! j) max_loc;
          X_min = map (\<lambda>j. X ! j) min_loc
      in X_max @ X_min)"

text \<open>
  One pass of the loop body for the parameter value \<open>i\<close>: the pair
  \<open>(I_x, Bif_val)\<close> that the pass appends to the two result lists.
\<close>

definition Biforcation_body ::
  "'m integrator \<Rightarrow> 'm \<Rightarrow> real list \<Rightarrow> int \<Rightarrow> real \<Rightarrow> error + (real list \<times> real list)" where
  "Biforcation_body odeint model t t_relax i =
     (case odeint model X0 t i of
        Inl e \<Rightarrow> Inl e
      | Inr sol \<Rightarrow>
          (let X = relax_window sol t_relax;
               Bif_val = Bif_val_of X;
               I_x = map (\<lambda>item. i) [0..<length Bif_val]
           in Inr (I_x, Bif_val)))"

text \<open>
  The \<open>for\<close> loop over the parameter values, with the two lists that it grows
  as explicit state. An exception leaves the loop at once.
\<close>

fun Biforcation_loop ::
  "'m integrator \<Rightarrow> 'm \<Rightarrow> real list \<Rightarrow> int \<Rightarrow> real list
     \<Rightarrow> real list list \<times> real list list \<Rightarrow> error + (real list list \<times> real list list)" where
  "Biforcation_loop odeint model t t_relax [] (I_list, Bif_list) = Inr (I_list, Bif_list)"
| "Biforcation_loop odeint model t t_relax (i # rest) (I_list, Bif_list) =
     (case Biforcation_body odeint model t t_relax i of
        Inl e \<Rightarrow> Inl e
      | Inr (I_x, Bif_val) \<Rightarrow>
          Biforcation_loop odeint model t t_relax rest (I_list @ [I_x], Bif_list @ [Bif_val]))"

text \<open>
  \<open>Biforcation(model, par_start, par_stop, par_tot, t0, t_stop, dt, t_relax)\<close>,
  with the two collaborators \<open>np.arange\<close> and \<open>integrate.odeint\<close> as its first
  arguments. The time grid is built first, then the parameter values, then the
  loop runs from two empty lists.
\<close>

definition Biforcation ::
  "grid_builder \<Rightarrow> 'm integrator \<Rightarrow> 'm \<Rightarrow> real \<Rightarrow> real \<Rightarrow> int \<Rightarrow> real \<Rightarrow> real \<Rightarrow> real \<Rightarrow> int
     \<Rightarrow> error + (real list list \<times> real list list)" where
  "Biforcation arange odeint model par_start par_stop par_tot t0 t_stop dt t_relax =
     (case arange t0 t_stop dt of
        Inl e \<Rightarrow> Inl e
      | Inr t \<Rightarrow>
          (case linspace par_start par_stop par_tot of
             Inl e \<Rightarrow> Inl e
           | Inr pars \<Rightarrow> Biforcation_loop odeint model t t_relax pars ([], [])))"

subsection \<open>Reference notions of the specification\<close>

text \<open>
  A strict local maximum of \<open>S\<close> in the words of the specification: an interior
  index whose value is greater than both neighbours; and the same with less
  for a strict local minimum.
\<close>

definition strict_local_max :: "real list \<Rightarrow> nat \<Rightarrow> bool" where
  "strict_local_max S i =
     (1 \<le> i \<and> i + 2 \<le> length S \<and> S ! i > S ! (i - 1) \<and> S ! i > S ! (i + 1))"

definition strict_local_min :: "real list \<Rightarrow> nat \<Rightarrow> bool" where
  "strict_local_min S i =
     (1 \<le> i \<and> i + 2 \<le> length S \<and> S ! i < S ! (i - 1) \<and> S ! i < S ! (i + 1))"

subsection \<open>Sample collaborators\<close>

text \<open>
  Collaborators used to run the engine on concrete inputs. \<open>exact_arange\<close> is a
  grid builder: \<open>np.arange\<close> computed in exact arithmetic with no limit of
  size. It is not the model of \<open>np.arange\<close>; it agrees with numpy on the calls
  made below, the grid 0, 1, 2, 3, 4 for start 0, stop 5, step 1 and the error
  of a zero step. \<open>zigzag\<close> answers every
  call with a trajectory of one row per time point whose first component
  alternates between 0 and 1 and whose second component is the parameter value;
  \<open>failing\<close> always raises; \<open>zigzag_cold\<close> is \<open>zigzag\<close> on the initial state
  \<open>X0\<close> and raises on every other initial state.
\<close>

definition exact_arange :: grid_builder where
  "exact_arange start stop step =
     (if step = 0 then Inl ZeroDivisionError
      else let len = nat \<lceil>(stop - start) / step\<rceil>
           in Inr (map (\<lambda>k. start + real k * step) [0..<len]))"

definition zigzag :: "unit integrator" where
  "zigzag model x0 t p = Inr (map (\<lambda>k. (if even k then 0 else 1, p)) [0..<length t])"


definition zigzag_cold :: "unit integrator" where
  "zigzag_cold model x0 t p = (if x0 = X0 then zigzag model x0 t p else Inl OdeintError)"

section \<open>The extremum detector\<close>

lemma length_boolrelextrema:
  "length (boolrelextrema data cmp) = length data"
  by (simp add: boolrelextrema_def take_clip_def Let_def)

lemma nth_boolrelextrema:
  assumes "i < length data"
  shows "boolrelextrema data cmp ! i =
           (cmp (data ! i) (data ! min (i + 1) (length data - 1))
            \<and> cmp (data ! i) (data ! (i - 1)))"
proof -
  have a: "nat (min (int i) (int (length data) - 1)) = i"
    using assms by linarith
  have b: "nat (min (int i + 1) (int (length data) - 1)) = min (Suc i) (length data - Suc 0)"
    using assms by linarith
  have c: "nat (min (max (int i - 1) 0) (int (length data) - 1)) = i - 1"
    using assms by linarith
  show ?thesis
    using assms by (simp add: boolrelextrema_def take_clip_def Let_def a b c
        del: min.absorb1 min.absorb2 min.absorb3 min.absorb4)
qed

lemma nth_boolrelextrema_boundary:
  assumes "i < length data" and "i = 0 \<or> i + 1 = length data"
    and irrefl: "\<And>x. \<not> cmp x x"
  shows "\<not> boolrelextrema data cmp ! i"
proof -
  from assms(2) have "min (i + 1) (length data - 1) = i \<or> i - 1 = i"
    by auto
  then show ?thesis
    using irrefl unfolding nth_boolrelextrema [OF assms(1)] by auto
qed

lemma nth_boolrelextrema_interior:
  assumes "1 \<le> i" and "i + 2 \<le> length data"
  shows "boolrelextrema data cmp ! i =
           (cmp (data ! i) (data ! (i + 1)) \<and> cmp (data ! i) (data ! (i - 1)))"
proof -
  have "i < length data" and "min (i + 1) (length data - 1) = i + 1"
    using assms by auto
  then show ?thesis
    by (simp only: nth_boolrelextrema)
qed

lemma argrelextrema_greater:
  "argrelextrema S greater = filter (strict_local_max S) [0..<length S]"
proof -
  have "boolrelextrema S greater ! i = strict_local_max S i" if "i < length S" for i
  proof (cases "i = 0 \<or> i + 1 = length S")
    case True
    then have "\<not> boolrelextrema S greater ! i"
      using that by (intro nth_boolrelextrema_boundary) (auto simp: greater_def)
    moreover have "\<not> strict_local_max S i"
      using True by (auto simp: strict_local_max_def)
    ultimately show ?thesis by simp
  next
    case False
    then have "1 \<le> i" and "i + 2 \<le> length S"
      using that by auto
    then show ?thesis
      by (auto simp: nth_boolrelextrema_interior strict_local_max_def greater_def)
  qed
  then show ?thesis
    by (auto simp: argrelextrema_def Let_def length_boolrelextrema intro!: filter_cong)
qed

lemma argrelextrema_less:
  "argrelextrema S less_cmp = filter (strict_local_min S) [0..<length S]"
proof -
  have "boolrelextrema S less_cmp ! i = strict_local_min S i" if "i < length S" for i
  proof (cases "i = 0 \<or> i + 1 = length S")
    case True
    then have "\<not> boolrelextrema S less_cmp ! i"
      using that by (intro nth_boolrelextrema_boundary) (auto simp: less_cmp_def)
    moreover have "\<not> strict_local_min S i"
      using True by (auto simp: strict_local_min_def)
    ultimately show ?thesis by simp
  next
    case False
    then have "1 \<le> i" and "i + 2 \<le> length S"
      using that by auto
    then show ?thesis
      by (auto simp: nth_boolrelextrema_interior strict_local_min_def less_cmp_def)
  qed
  then show ?thesis
    by (auto simp: argrelextrema_def Let_def length_boolrelextrema intro!: filter_cong)
qed

lemma set_argrelextrema_greater:
  "set (argrelextrema S greater) = {i. strict_local_max S i}"
  by (auto simp: argrelextrema_greater strict_local_max_def)

lemma set_argrelextrema_less:
  "set (argrelextrema S less_cmp) = {i. strict_local_min S i}"
  by (auto simp: argrelextrema_less strict_local_min_def)

text \<open>
  Claim C1. For every sequence \<open>S\<close> of reals of length \<open>n\<close>, the detector called
  with \<open>np.greater\<close> reports exactly the indices \<open>i\<close> with \<open>1 \<le> i \<le> n - 2\<close>,
  \<open>S[i] > S[i-1]\<close> and \<open>S[i] > S[i+1]\<close>, in increasing order, and called with
  \<open>np.less\<close> exactly those with \<open><\<close> on both sides. Index 0 and index \<open>n - 1\<close>
  are never reported, an index with an equal neighbour is never reported, and a
  sequence of fewer than three samples gives the empty result.
\<close>

theorem extremum_detector_contract:
  "argrelextrema S greater = filter (strict_local_max S) [0..<length S]
   \<and> argrelextrema S less_cmp = filter (strict_local_min S) [0..<length S]
   \<and> set (argrelextrema S greater) =
       {i. 1 \<le> i \<and> i + 2 \<le> length S \<and> S ! i > S ! (i - 1) \<and> S ! i > S ! (i + 1)}
   \<and> set (argrelextrema S less_cmp) =
       {i. 1 \<le> i \<and> i + 2 \<le> length S \<and> S ! i < S ! (i - 1) \<and> S ! i < S ! (i + 1)}
   \<and> 0 \<notin> set (argrelextrema S greater) \<union> set (argrelextrema S less_cmp)
   \<and> length S - 1 \<notin> set (argrelextrema S greater) \<union> set (argrelextrema S less_cmp)
   \<and> (\<forall>i. S ! i = S ! (i - 1) \<or> S ! i = S ! (i + 1) \<longrightarrow>
          i \<notin> set (argrelextrema S greater) \<union> set (argrelextrema S less_cmp))
   \<and> (length S < 3 \<longrightarrow> argrelextrema S greater = [] \<and> argrelextrema S less_cmp = [])"
proof -
  have short: "filter (strict_local_max S) [0..<length S] = []
               \<and> filter (strict_local_min S) [0..<length S] = []" if "length S < 3"
    using that by (auto simp: filter_empty_conv strict_local_max_def strict_local_min_def)
  have flat: "\<not> strict_local_max S i \<and> \<not> strict_local_min S i"
    if "S ! i = S ! (i - 1) \<or> S ! i = S ! (i + 1)" for i
    using that by (auto simp: strict_local_max_def strict_local_min_def)
  show ?thesis
    unfolding set_argrelextrema_greater set_argrelextrema_less
    unfolding argrelextrema_greater argrelextrema_less
    using short flat
    by (auto simp: strict_local_max_def strict_local_min_def)
qed

theorem extremum_detector_contract_witness:
  "argrelextrema [1, 2] greater = [] \<and> argrelextrema [1, 2] less_cmp = []
   \<and> 1 \<notin> set (argrelextrema [0, 1, 1, 0] greater) \<union> set (argrelextrema [0, 1, 1, 0] less_cmp)"
proof -
  have short: "length [1, 2 :: real] < 3"
    by simp
  have plateau: "[0, 1, 1, 0 :: real] ! 1 = [0, 1, 1, 0] ! (1 - 1) \<or> [0, 1, 1, 0 :: real] ! 1 = [0, 1, 1, 0] ! (1 + 1)"
    by simp
  from extremum_detector_contract [of "[1, 2]"] short
  have a: "argrelextrema [1, 2] greater = [] \<and> argrelextrema [1, 2] less_cmp = []"
    by blast
  from extremum_detector_contract [of "[0, 1, 1, 0]"] plateau
  have b: "1 \<notin> set (argrelextrema [0, 1, 1, 0] greater) \<union> set (argrelextrema [0, 1, 1, 0] less_cmp)"
    by blast
  from a b show ?thesis
    by blast
qed

text \<open>
  Claim C2, as stated: on \<open>[0,1,0,1,0,1,0]\<close> the maxima are at indices 1, 3, 5 and
  there is no minimum; on \<open>[0,1,2,3,2,1,0]\<close> there is one maximum, at index 3, and
  no minimum. The first sequence has strict local minima at indices 2 and 4
  (value 0 between two values 1), and the detector reports them.
\<close>

theorem detector_examples_counterexample:
  "\<not> (argrelextrema [0, 1, 0, 1, 0, 1, 0] greater = [1, 3, 5]
      \<and> argrelextrema [0, 1, 0, 1, 0, 1, 0] less_cmp = []
      \<and> argrelextrema [0, 1, 2, 3, 2, 1, 0] greater = [3]
      \<and> argrelextrema [0, 1, 2, 3, 2, 1, 0] less_cmp = [])"
proof -
  have "argrelextrema [0, 1, 0, 1, 0, 1, 0] less_cmp = [2, 4]"
    by code_simp
  then show ?thesis
    by simp
qed

text \<open>
  Claim C2, amended: on \<open>[0,1,0,1,0,1,0]\<close> the detector reports maxima exactly at
  indices 1, 3, 5 and minima exactly at indices 2, 4; on \<open>[0,1,2,3,2,1,0]\<close> it
  reports exactly one maximum, at index 3, and no minimum.
\<close>

theorem detector_examples:
  "argrelextrema [0, 1, 0, 1, 0, 1, 0] greater = [1, 3, 5]
   \<and> argrelextrema [0, 1, 0, 1, 0, 1, 0] less_cmp = [2, 4]
   \<and> argrelextrema [0, 1, 2, 3, 2, 1, 0] greater = [3]
   \<and> argrelextrema [0, 1, 2, 3, 2, 1, 0] less_cmp = []"
  by code_simp

section \<open>The parameter values\<close>



lemma linspace_one: "linspace a b 1 = Inr [a]"
  by (simp add: linspace_def)

lemma linspace_even:
  assumes "1 < num"
  shows "linspace a b num =
           Inr (map (\<lambda>k. a + real k * ((b - a) / real_of_int (num - 1))) [0..<nat num])"
proof -
  let ?n = "nat num"
  let ?step = "(b - a) / real_of_int (num - 1)"
  let ?ys = "map (\<lambda>k. a + real k * ?step) [0..<?n]"
  have pos: "real_of_int (num - 1) \<noteq> 0"
    using assms by simp
  have y: "map (\<lambda>v. v + a)
             (if ?step = 0 then map (\<lambda>v. v / real_of_int (num - 1) * (b - a)) (map real [0..<?n])
              else map (\<lambda>v. v * ?step) (map real [0..<?n])) = ?ys"
    by (auto simp: add.commute)
  have "real (?n - 1) = real_of_int (num - 1)"
    using assms by simp
  then have "a + real (?n - 1) * ?step = b"
    using pos by simp
  moreover have "?n - 1 < ?n"
    using assms by simp
  ultimately have "?ys ! (?n - 1) = b"
    by simp
  then have "?ys[?n - 1 := b] = ?ys"
    by (metis list_update_id)
  then show ?thesis
    using assms y unfolding linspace_def Let_def by simp
qed

lemma even_spacing_nth:
  "k + 1 < n \<Longrightarrow>
     map (\<lambda>k. a + real k * s) [0..<n] ! (k + 1) - map (\<lambda>k. a + real k * s) [0..<n] ! k = (s::real)"
  by (simp add: algebra_simps)

lemma linspace_total:
  "0 \<le> num \<Longrightarrow> \<exists>pars. linspace a b num = Inr pars \<and> length pars = nat num"
  by (simp add: linspace_def Let_def)

text \<open>
  Claim C3. The parameter values of the sweep are \<open>np.linspace(par_start,
  par_stop, par_tot)\<close>: \<open>par_tot\<close> values; for \<open>par_tot > 1\<close> they start at
  \<open>par_start\<close>, end at \<open>par_stop\<close> and are evenly spaced, with step
  \<open>(par_stop - par_start) / (par_tot - 1)\<close>; for \<open>par_tot = 1\<close> the only value
  is \<open>par_start\<close>. Bounds 0 and 1 with 5 values give 0, 0.25, 0.5, 0.75, 1, and
  with 1 value give 0.
\<close>

theorem parameter_sweep_values:
  "(0 \<le> par_tot \<longrightarrow>
      (\<exists>pars. linspace par_start par_stop par_tot = Inr pars \<and> length pars = nat par_tot))
   \<and> (1 < par_tot \<longrightarrow>
        (\<exists>pars. linspace par_start par_stop par_tot = Inr pars
           \<and> hd pars = par_start \<and> last pars = par_stop
           \<and> (\<forall>k < nat par_tot. pars ! k =
                  par_start + real k * ((par_stop - par_start) / real_of_int (par_tot - 1)))
           \<and> (\<forall>k. k + 1 < nat par_tot \<longrightarrow>
                  pars ! (k + 1) - pars ! k = (par_stop - par_start) / real_of_int (par_tot - 1))))
   \<and> linspace par_start par_stop 1 = Inr [par_start]
   \<and> linspace 0 1 5 = Inr [0, 1 / 4, 1 / 2, 3 / 4, 1]
   \<and> linspace 0 1 1 = Inr [0]"
proof -
  let ?step = "(par_stop - par_start) / real_of_int (par_tot - 1)"
  let ?ys = "map (\<lambda>k. par_start + real k * ?step) [0..<nat par_tot]"
  have even: "hd ?ys = par_start \<and> last ?ys = par_stop
        \<and> (\<forall>k < nat par_tot. ?ys ! k = par_start + real k * ?step)
        \<and> (\<forall>k. k + 1 < nat par_tot \<longrightarrow> ?ys ! (k + 1) - ?ys ! k = ?step)" if "1 < par_tot"
  proof -
    have ne: "[0..<nat par_tot] \<noteq> []"
      using that by simp
    have "real (nat par_tot - 1) = real_of_int (par_tot - 1)"
      using that by simp
    then have "par_start + real (nat par_tot - 1) * ?step = par_stop"
      using that by simp
    then have "last ?ys = par_stop"
      using ne that by (simp add: last_map)
    moreover have "hd ?ys = par_start"
      using ne that by (simp add: hd_map)
    moreover have "?ys ! (k + 1) - ?ys ! k = ?step" if "k + 1 < nat par_tot" for k
      using that by (rule even_spacing_nth)
    ultimately show ?thesis
      by simp
  qed
  have five: "linspace 0 1 5 = Inr [0, 1 / 4, 1 / 2, 3 / 4, 1]"
    by code_simp
  show ?thesis
    using linspace_total [of par_tot par_start par_stop] even five
    by (auto simp: linspace_even linspace_one simp del: of_int_diff)
qed

theorem parameter_sweep_values_witness:
  "\<exists>pars. linspace 2 8 4 = Inr pars \<and> length pars = 4 \<and> hd pars = 2 \<and> last pars = 8
     \<and> pars ! 2 = 6 \<and> pars ! (1 + 1) - pars ! 1 = 2"
proof -
  have h0: "(0::int) \<le> 4" and h1: "(1::int) < 4"
    by simp_all
  from parameter_sweep_values [of 4 2 8] h0
  obtain pars where a: "linspace 2 8 4 = Inr pars" "length pars = nat 4"
    by blast
  from parameter_sweep_values [of 4 2 8] h1
  obtain pars' where b: "linspace 2 8 4 = Inr pars'" "hd pars' = 2" "last pars' = 8"
    "\<forall>k < nat 4. pars' ! k = 2 + real k * ((8 - 2) / real_of_int (4 - 1))"
    "\<forall>k. k + 1 < nat 4 \<longrightarrow> pars' ! (k + 1) - pars' ! k = (8 - 2) / real_of_int (4 - 1)"
    by blast
  have same: "pars' = pars"
    using a(1) b(1) by simp
  have "pars ! 2 = 6"
    using b(4) [rule_format, of 2] same by simp
  moreover have "pars ! (1 + 1) - pars ! 1 = 2"
    using b(5) [rule_format, of 1] same by simp
  ultimately show ?thesis
    using a b(2,3) same by simp
qed

section \<open>The sweep loop\<close>

lemma map_const_upt: "map (\<lambda>item. i) [0..<n] = replicate n i"
  by (induction n) (simp_all add: replicate_append_same)

lemma Biforcation_body_Inr:
  "odeint model X0 t i = Inr sol \<Longrightarrow>
     Biforcation_body odeint model t t_relax i =
       Inr (replicate (length (Bif_val_of (relax_window sol t_relax))) i,
            Bif_val_of (relax_window sol t_relax))"
  by (simp add: Biforcation_body_def Let_def map_const_upt)

lemma Biforcation_body_Inl:
  "odeint model X0 t i = Inl e \<Longrightarrow> Biforcation_body odeint model t t_relax i = Inl e"
  by (simp add: Biforcation_body_def)

lemma Biforcation_body_Inr_iff:
  "Biforcation_body odeint model t t_relax i = Inr (I_x, Bif_val) \<longleftrightarrow>
     (\<exists>sol. odeint model X0 t i = Inr sol
        \<and> Bif_val = Bif_val_of (relax_window sol t_relax)
        \<and> I_x = replicate (length Bif_val) i)"
  by (cases "odeint model X0 t i") (auto simp: Biforcation_body_Inr Biforcation_body_Inl)

lemma Biforcation_loop_Inr_iff:
  "Biforcation_loop odeint model t t_relax pars (I_list, Bif_list) = Inr (I', B') \<longleftrightarrow>
     (\<exists>rs. map (Biforcation_body odeint model t t_relax) pars = map Inr rs
        \<and> I' = I_list @ map fst rs \<and> B' = Bif_list @ map snd rs)"
proof (induction pars arbitrary: I_list Bif_list)
  case Nil
  then show ?case by auto
next
  case (Cons i rest)
  show ?case
  proof (cases "Biforcation_body odeint model t t_relax i")
    case (Inl e)
    have "Biforcation_loop odeint model t t_relax (i # rest) (I_list, Bif_list) = Inl e"
      using Inl by simp
    moreover have "map (Biforcation_body odeint model t t_relax) (i # rest) \<noteq> map Inr rs" for rs
      using Inl by (cases rs) auto
    ultimately show ?thesis
      by simp
  next
    case (Inr r)
    obtain I_x Bif_val where r: "r = (I_x, Bif_val)"
      by (cases r)
    have step: "Biforcation_loop odeint model t t_relax (i # rest) (I_list, Bif_list) =
            Biforcation_loop odeint model t t_relax rest (I_list @ [I_x], Bif_list @ [Bif_val])"
      using Inr r by simp
    have "(\<exists>rs. map (Biforcation_body odeint model t t_relax) (i # rest) = map Inr rs
              \<and> I' = I_list @ map fst rs \<and> B' = Bif_list @ map snd rs) \<longleftrightarrow>
          (\<exists>rs'. map (Biforcation_body odeint model t t_relax) rest = map Inr rs'
              \<and> I' = (I_list @ [I_x]) @ map fst rs' \<and> B' = (Bif_list @ [Bif_val]) @ map snd rs')"
      (is "?L \<longleftrightarrow> ?R")
    proof
      assume ?L
      then obtain rs where rs: "map (Biforcation_body odeint model t t_relax) (i # rest) = map Inr rs"
        "I' = I_list @ map fst rs" "B' = Bif_list @ map snd rs"
        by blast
      then obtain rs' where "rs = r # rs'"
        using Inr by (cases rs) auto
      then show ?R
        using rs r by (intro exI [of _ rs']) simp
    next
      assume ?R
      then obtain rs' where "map (Biforcation_body odeint model t t_relax) rest = map Inr rs'"
        "I' = (I_list @ [I_x]) @ map fst rs'" "B' = (Bif_list @ [Bif_val]) @ map snd rs'"
        by blast
      then show ?L
        using Inr r by (intro exI [of _ "r # rs'"]) simp
    qed
    then show ?thesis
      unfolding step Cons.IH by (rule sym)
  qed
qed

lemma Biforcation_Inr_iff:
  "Biforcation arange odeint model par_start par_stop par_tot t0 t_stop dt t_relax = Inr (I_list, Bif_list) \<longleftrightarrow>
     (\<exists>t pars rs. arange t0 t_stop dt = Inr t \<and> linspace par_start par_stop par_tot = Inr pars
        \<and> map (Biforcation_body odeint model t t_relax) pars = map Inr rs
        \<and> I_list = map fst rs \<and> Bif_list = map snd rs)"
  by (auto simp: Biforcation_def Biforcation_loop_Inr_iff split: sum.splits)

lemma Biforcation_loop_cong:
  assumes "\<forall>p \<in> set pars. odeint' model' X0 t p = odeint model X0 t p"
  shows "Biforcation_loop odeint' model' t t_relax pars acc = Biforcation_loop odeint model t t_relax pars acc"
  using assms
proof (induction pars arbitrary: acc)
  case Nil
  then show ?case by (cases acc) simp
next
  case (Cons i rest)
  have "Biforcation_body odeint' model' t t_relax i = Biforcation_body odeint model t t_relax i"
    using Cons.prems by (simp add: Biforcation_body_def)
  then show ?case
    using Cons by (cases acc) (auto split: sum.splits)
qed

section \<open>The returned dataset\<close>

lemma zip_replicate_Pair: "zip (replicate (length xs) p) xs = map (Pair p) xs"
  by (induction xs) simp_all

lemma zip_concat_replicate:
  "zip (concat (map (\<lambda>(p, vs). replicate (length vs) p) ps)) (concat (map snd ps)) =
     concat (map (\<lambda>(p, vs). map (Pair p) vs) ps)"
  by (induction ps) (auto simp: zip_replicate_Pair)

lemma Bif_val_of_spec:
  "Bif_val_of X =
     map (\<lambda>j. X ! j) (filter (strict_local_max X) [0..<length X])
     @ map (\<lambda>j. X ! j) (filter (strict_local_min X) [0..<length X])"
  by (simp add: Bif_val_of_def Let_def argrelextrema_greater argrelextrema_less)

text \<open>What a returned dataset is made of.\<close>

lemma Biforcation_InrD:
  assumes "Biforcation arange odeint model par_start par_stop par_tot t0 t_stop dt t_relax = Inr (I_list, Bif_list)"
  shows "\<exists>t pars. arange t0 t_stop dt = Inr t
           \<and> linspace par_start par_stop par_tot = Inr pars
           \<and> length I_list = length pars \<and> length Bif_list = length pars
           \<and> (\<forall>k < length pars.
                 Biforcation_body odeint model t t_relax (pars ! k) = Inr (I_list ! k, Bif_list ! k))"
proof -
  from assms obtain t pars rs where t: "arange t0 t_stop dt = Inr t"
    and pars: "linspace par_start par_stop par_tot = Inr pars"
    and rs: "map (Biforcation_body odeint model t t_relax) pars = map Inr rs"
    and res: "I_list = map fst rs" "Bif_list = map snd rs"
    unfolding Biforcation_Inr_iff by blast
  have len: "length rs = length pars"
    using rs by (metis length_map)
  have "Biforcation_body odeint model t t_relax (pars ! k) = Inr (I_list ! k, Bif_list ! k)"
    if "k < length pars" for k
  proof -
    have "map (Biforcation_body odeint model t t_relax) pars ! k = map Inr rs ! k"
      using rs by simp
    then show ?thesis
      using that len res by simp
  qed
  then show ?thesis
    using t pars len res by simp
qed

lemma zigzag_two_values:
  "Biforcation exact_arange zigzag () 0 1 2 0 5 1 (-5) = Inr ([[0, 0, 0], [1, 1, 1]], [[1, 1, 0], [1, 1, 0]])"
  by code_simp

text \<open>
  Claim C5. In a returned dataset, the entry of each swept parameter value \<open>p\<close>
  is built from the window \<open>X\<close> of that value's trajectory: the extremum list
  is the values of \<open>X\<close> at its strict local maxima, in index (time) order,
  followed by the values at its strict local minima, in index order; the
  parameter list is \<open>p\<close> repeated once per extremum, so every extremum value
  is paired with exactly \<open>p\<close>.
\<close>

theorem per_parameter_extremum_list:
  assumes "Biforcation arange odeint model par_start par_stop par_tot t0 t_stop dt t_relax = Inr (I_list, Bif_list)"
  shows "\<exists>t pars. arange t0 t_stop dt = Inr t \<and> linspace par_start par_stop par_tot = Inr pars
           \<and> length I_list = length pars \<and> length Bif_list = length pars
           \<and> (\<forall>k < length pars. \<exists>sol X.
                 odeint model X0 t (pars ! k) = Inr sol \<and> X = relax_window sol t_relax
                 \<and> Bif_list ! k =
                     map (\<lambda>j. X ! j) (filter (strict_local_max X) [0..<length X])
                     @ map (\<lambda>j. X ! j) (filter (strict_local_min X) [0..<length X])
                 \<and> I_list ! k = replicate (length (Bif_list ! k)) (pars ! k)
                 \<and> zip (I_list ! k) (Bif_list ! k) = map (Pair (pars ! k)) (Bif_list ! k))"
proof -
  from Biforcation_InrD [OF assms] obtain t pars where t: "arange t0 t_stop dt = Inr t"
    and pars: "linspace par_start par_stop par_tot = Inr pars"
    and len: "length I_list = length pars" "length Bif_list = length pars"
    and body: "\<And>k. k < length pars \<Longrightarrow>
           Biforcation_body odeint model t t_relax (pars ! k) = Inr (I_list ! k, Bif_list ! k)"
    by blast
  have "\<exists>sol X. odeint model X0 t (pars ! k) = Inr sol \<and> X = relax_window sol t_relax
          \<and> Bif_list ! k =
              map (\<lambda>j. X ! j) (filter (strict_local_max X) [0..<length X])
              @ map (\<lambda>j. X ! j) (filter (strict_local_min X) [0..<length X])
          \<and> I_list ! k = replicate (length (Bif_list ! k)) (pars ! k)
          \<and> zip (I_list ! k) (Bif_list ! k) = map (Pair (pars ! k)) (Bif_list ! k)"
    if "k < length pars" for k
  proof -
    from body [OF that] obtain sol where sol: "odeint model X0 t (pars ! k) = Inr sol"
      and B: "Bif_list ! k = Bif_val_of (relax_window sol t_relax)"
      and I: "I_list ! k = replicate (length (Bif_list ! k)) (pars ! k)"
      unfolding Biforcation_body_Inr_iff by blast
    show ?thesis
      using sol B I by (simp add: Bif_val_of_spec [symmetric] zip_replicate_Pair)
  qed
  then show ?thesis
    using t pars len by blast
qed

theorem per_parameter_extremum_list_witness:
  "\<exists>I_list Bif_list t pars.
     Biforcation exact_arange zigzag () 0 1 2 0 5 1 (- 5) = Inr (I_list, Bif_list)
     \<and> I_list = [[0, 0, 0], [1, 1, 1]] \<and> Bif_list = [[1, 1, 0], [1, 1, 0]]
     \<and> exact_arange 0 5 1 = Inr t \<and> linspace 0 1 2 = Inr pars
     \<and> length I_list = length pars \<and> length Bif_list = length pars
     \<and> (\<forall>k < length pars. \<exists>sol X.
           zigzag () X0 t (pars ! k) = Inr sol \<and> X = relax_window sol (- 5)
           \<and> Bif_list ! k =
               map (\<lambda>j. X ! j) (filter (strict_local_max X) [0..<length X])
               @ map (\<lambda>j. X ! j) (filter (strict_local_min X) [0..<length X])
           \<and> I_list ! k = replicate (length (Bif_list ! k)) (pars ! k)
           \<and> zip (I_list ! k) (Bif_list ! k) = map (Pair (pars ! k)) (Bif_list ! k))"
  using zigzag_two_values per_parameter_extremum_list [OF zigzag_two_values]
  by (elim exE, intro exI conjI) (erule conjE | assumption | rule refl)+

text \<open>
  Claim C6, as stated: the engine returns two flat sequences, the parameter
  value repeated once per extremum and the extremum values. The code appends one
  list per parameter value (\<open>I_list.append(I_x)\<close>, \<open>Bif_list.append(Bif_val)\<close>)
  and returns the two lists of lists. For one parameter value and the window
  \<open>[0,1,0,1,0]\<close> the returned parameter sequence has one entry, the list
  \<open>[0,0,0]\<close>, while three extrema are returned.
\<close>

theorem flat_dataset_counterexample:
  "Biforcation exact_arange zigzag () 0 1 1 0 5 1 (-5) = Inr ([[0, 0, 0]], [[1, 1, 0]])
   \<and> length (fst (projr (Biforcation exact_arange zigzag () 0 1 1 0 5 1 (-5)))) = 1
   \<and> length (concat (snd (projr (Biforcation exact_arange zigzag () 0 1 1 0 5 1 (-5))))) = 3"
proof -
  have "Biforcation exact_arange zigzag () 0 1 1 0 5 1 (-5) = Inr ([[0, 0, 0]], [[1, 1, 0]])"
    by code_simp
  then show ?thesis
    by simp
qed

text \<open>
  Claim C6, amended: the engine returns two parallel nested sequences with one
  sub-list per swept parameter value, in sweep order: the sub-lists at position
  \<open>k\<close> are the pair that the loop body yields for the \<open>k\<close>-th parameter value,
  namely that value repeated once per extremum and the extremum values.
  Flattening both sequences gives the flat dataset of (parameter, extremum)
  pairs in sweep order.
\<close>

theorem nested_dataset_in_sweep_order:
  assumes "Biforcation arange odeint model par_start par_stop par_tot t0 t_stop dt t_relax = Inr (I_list, Bif_list)"
  shows "\<exists>t pars. arange t0 t_stop dt = Inr t \<and> linspace par_start par_stop par_tot = Inr pars
           \<and> length I_list = length pars \<and> length Bif_list = length pars
           \<and> (\<forall>k < length pars.
                 Biforcation_body odeint model t t_relax (pars ! k) = Inr (I_list ! k, Bif_list ! k))
           \<and> I_list = map (\<lambda>(p, vs). replicate (length vs) p) (zip pars Bif_list)
           \<and> zip (concat I_list) (concat Bif_list) =
               concat (map (\<lambda>(p, vs). map (Pair p) vs) (zip pars Bif_list))"
proof -
  from Biforcation_InrD [OF assms] obtain t pars where t: "arange t0 t_stop dt = Inr t"
    and pars: "linspace par_start par_stop par_tot = Inr pars"
    and len: "length I_list = length pars" "length Bif_list = length pars"
    and body: "\<And>k. k < length pars \<Longrightarrow>
           Biforcation_body odeint model t t_relax (pars ! k) = Inr (I_list ! k, Bif_list ! k)"
    by blast
  have each: "I_list ! k = replicate (length (Bif_list ! k)) (pars ! k)" if "k < length pars" for k
    using body [OF that] unfolding Biforcation_body_Inr_iff by auto
  have I: "I_list = map (\<lambda>(p, vs). replicate (length vs) p) (zip pars Bif_list)"
    using len each by (intro nth_equalityI) simp_all
  have B: "Bif_list = map snd (zip pars Bif_list)"
    using len by simp
  have "zip (concat I_list) (concat Bif_list) =
          zip (concat (map (\<lambda>(p, vs). replicate (length vs) p) (zip pars Bif_list)))
              (concat (map snd (zip pars Bif_list)))"
    using I B by simp
  then have "zip (concat I_list) (concat Bif_list) =
          concat (map (\<lambda>(p, vs). map (Pair p) vs) (zip pars Bif_list))"
    by (simp only: zip_concat_replicate)
  then show ?thesis
    using t pars len body I by blast
qed

theorem nested_dataset_in_sweep_order_witness:
  "\<exists>I_list Bif_list t pars.
     Biforcation exact_arange zigzag () 0 1 2 0 5 1 (- 5) = Inr (I_list, Bif_list)
     \<and> I_list = [[0, 0, 0], [1, 1, 1]] \<and> Bif_list = [[1, 1, 0], [1, 1, 0]]
     \<and> exact_arange 0 5 1 = Inr t \<and> linspace 0 1 2 = Inr pars
     \<and> length I_list = length pars \<and> length Bif_list = length pars
     \<and> (\<forall>k < length pars.
           Biforcation_body zigzag () t (- 5) (pars ! k) = Inr (I_list ! k, Bif_list ! k))
     \<and> I_list = map (\<lambda>(p, vs). replicate (length vs) p) (zip pars Bif_list)
     \<and> zip (concat I_list) (concat Bif_list) =
         concat (map (\<lambda>(p, vs). map (Pair p) vs) (zip pars Bif_list))"
  using zigzag_two_values nested_dataset_in_sweep_order [OF zigzag_two_values]
  by (elim exE, intro exI conjI) (erule conjE | assumption | rule refl)+

text \<open>
  Claim C7. Whenever the engine returns, the two returned sequences have the
  same length, the two sub-lists of every swept parameter value have the same
  length, and so have the two flattened sequences.
\<close>

theorem dataset_pairing_invariant:
  assumes "Biforcation arange odeint model par_start par_stop par_tot t0 t_stop dt t_relax = Inr (I_list, Bif_list)"
  shows "length I_list = length Bif_list
         \<and> (\<forall>k < length I_list. length (I_list ! k) = length (Bif_list ! k))
         \<and> length (concat I_list) = length (concat Bif_list)"
proof -
  from Biforcation_InrD [OF assms] obtain t pars where
    len: "length I_list = length pars" "length Bif_list = length pars"
    and body: "\<And>k. k < length pars \<Longrightarrow>
           Biforcation_body odeint model t t_relax (pars ! k) = Inr (I_list ! k, Bif_list ! k)"
    by blast
  have each: "length (I_list ! k) = length (Bif_list ! k)" if "k < length pars" for k
    using body [OF that] unfolding Biforcation_body_Inr_iff by auto
  have "map length I_list = map length Bif_list"
    using len each by (intro nth_equalityI) simp_all
  then have "length (concat I_list) = length (concat Bif_list)"
    by (simp add: length_concat)
  then show ?thesis
    using len each by simp
qed

theorem dataset_pairing_invariant_witness:
  "Biforcation exact_arange zigzag () 0 1 2 0 5 1 (-5) = Inr ([[0, 0, 0], [1, 1, 1]], [[1, 1, 0], [1, 1, 0]])
   \<and> length [[0, 0, 0], [1, 1, 1 :: real]] = length [[1, 1, 0], [1, 1, 0 :: real]]
   \<and> length ([[0, 0, 0], [1, 1, 1 :: real]] ! 1) = length ([[1, 1, 0], [1, 1, 0 :: real]] ! 1)
   \<and> length (concat [[0, 0, 0], [1, 1, 1 :: real]]) = length (concat [[1, 1, 0], [1, 1, 0 :: real]])"
proof -
  note inv = dataset_pairing_invariant [OF zigzag_two_values]
  have outer: "length [[0, 0, 0], [1, 1, 1 :: real]] = length [[1, 1, 0], [1, 1, 0 :: real]]"
    by (rule conjunct1 [OF inv])
  have inner: "\<forall>k < length [[0, 0, 0], [1, 1, 1 :: real]].
      length ([[0, 0, 0], [1, 1, 1 :: real]] ! k) = length ([[1, 1, 0], [1, 1, 0 :: real]] ! k)"
    by (rule conjunct1 [OF conjunct2 [OF inv]])
  have flat: "length (concat [[0, 0, 0], [1, 1, 1 :: real]]) = length (concat [[1, 1, 0], [1, 1, 0 :: real]])"
    by (rule conjunct2 [OF conjunct2 [OF inv]])
  have "(1::nat) < length [[0, 0, 0], [1, 1, 1 :: real]]"
    by simp
  with inner have "length ([[0, 0, 0], [1, 1, 1 :: real]] ! 1) = length ([[1, 1, 0], [1, 1, 0 :: real]] ! 1)"
    by blast
  with outer flat zigzag_two_values show ?thesis
    by blast
qed

section \<open>The relaxation window\<close>

lemma slice_from_negative:
  "start < 0 \<Longrightarrow> slice_from xs start = drop (length xs - nat (- start)) xs"
proof -
  assume neg: "start < 0"
  have "nat (max (int (length xs) + start) 0) = length xs - nat (- start)"
    using neg by linarith
  then show ?thesis
    using neg by (simp add: slice_from_def Let_def)
qed

lemma slice_from_nonnegative:
  "0 \<le> start \<Longrightarrow> slice_from xs start = drop (nat start) xs"
proof -
  assume "0 \<le> start"
  then have "drop (nat (min start (int (length xs)))) xs = drop (nat start) xs"
    by (cases "start \<le> int (length xs)") (simp_all add: min_def)
  then show ?thesis
    using \<open>0 \<le> start\<close> by (simp add: slice_from_def Let_def)
qed

lemma relax_window_negative:
  "t_relax < 0 \<Longrightarrow>
     relax_window sol t_relax = drop (length sol - nat \<bar>t_relax\<bar>) (map fst sol)"
  by (simp add: relax_window_def Let_def slice_from_negative abs_if)

lemma relax_window_nonnegative:
  "0 \<le> t_relax \<Longrightarrow> relax_window sol t_relax = drop (nat t_relax) (map fst sol)"
  by (simp add: relax_window_def Let_def slice_from_nonnegative)

lemma grid_five: "exact_arange 0 5 1 = Inr [0, 1, 2, 3, 4]"
  by code_simp

lemma two_values: "linspace 0 1 2 = Inr [0, 1]"
  by code_simp

lemma zigzag_five:
  "zigzag () X0 [0, 1, 2, 3, 4] p = Inr [(0, p), (1, p), (0, p), (1, p), (0, p)]"
  by (simp add: zigzag_def upt_rec)



section \<open>Normal return and errors\<close>

lemma map_Inr_ex:
  "\<forall>p \<in> set pars. \<exists>r. f p = Inr r \<Longrightarrow> \<exists>rs. map f pars = map Inr rs"
proof (induction pars)
  case Nil
  then show ?case by simp
next
  case (Cons p pars)
  then obtain r rs where "f p = Inr r" and "map f pars = map Inr rs"
    by auto
  then have "map f (p # pars) = map Inr (r # rs)"
    by simp
  then show ?case
    by blast
qed

lemma Biforcation_loop_returns:
  assumes "\<forall>p \<in> set pars. \<exists>sol. odeint model X0 t p = Inr sol"
  shows "\<exists>I_list Bif_list.
           Biforcation_loop odeint model t t_relax pars ([], []) = Inr (I_list, Bif_list)"
proof -
  have "\<forall>p \<in> set pars. \<exists>r. Biforcation_body odeint model t t_relax p = Inr r"
    using assms by (auto simp: Biforcation_body_Inr)
  then obtain rs where "map (Biforcation_body odeint model t t_relax) pars = map Inr rs"
    using map_Inr_ex by blast
  then have "Biforcation_loop odeint model t t_relax pars ([], []) = Inr ([] @ map fst rs, [] @ map snd rs)"
    unfolding Biforcation_loop_Inr_iff by blast
  then show ?thesis
    by blast
qed

lemma Biforcation_returns:
  assumes "arange t0 t_stop dt = Inr t" and "linspace par_start par_stop par_tot = Inr pars"
    and "\<forall>p \<in> set pars. \<exists>sol. odeint model X0 t p = Inr sol"
  shows "\<exists>I_list Bif_list.
           Biforcation arange odeint model par_start par_stop par_tot t0 t_stop dt t_relax = Inr (I_list, Bif_list)"
  using assms(1,2) Biforcation_loop_returns [where odeint = odeint and model = model, OF assms(3)] by (simp add: Biforcation_def)

lemma linspace_Inr_iff: "(\<exists>pars. linspace a b num = Inr pars) \<longleftrightarrow> 0 \<le> num"
  by (auto simp: linspace_def Let_def)

lemma zigzag_overflow_values:
  "Biforcation exact_arange zigzag () 0 1 2 0 5 1 (- 30) =
     Inr ([[0, 0, 0], [1, 1, 1]], [[1, 1, 0], [1, 1, 0]])"
  by code_simp




text \<open>
  Claim C10. Let \<open>t_relax\<close> be negative, as the function documents it, with
  \<open>abs(t_relax)\<close> greater than the number of rows of every trajectory of the
  sweep. Once the time grid and the parameter values are built and the
  integrator has returned for each value, the engine returns normally: for
  every parameter value the slice is the whole first component \<open>X\<close> of its
  trajectory, and its extremum list is the values of \<open>X\<close> at the strict local
  maxima of the entire \<open>X\<close>, in index order, followed by the values at the
  strict local minima of the entire \<open>X\<close>, transient included.
\<close>

theorem relaxation_window_overflow_clamps:
  assumes "arange t0 t_stop dt = Inr t" and "linspace par_start par_stop par_tot = Inr pars"
    and "t_relax < 0"
    and "\<forall>p \<in> set pars. \<exists>sol. odeint model X0 t p = Inr sol \<and> length sol < nat \<bar>t_relax\<bar>"
  shows "\<exists>I_list Bif_list.
           Biforcation arange odeint model par_start par_stop par_tot t0 t_stop dt t_relax = Inr (I_list, Bif_list)
           \<and> length I_list = length pars \<and> length Bif_list = length pars
           \<and> (\<forall>k < length pars. \<exists>sol X. odeint model X0 t (pars ! k) = Inr sol
                 \<and> X = map fst sol
                 \<and> relax_window sol t_relax = X
                 \<and> Bif_list ! k = Bif_val_of X
                 \<and> Bif_list ! k =
                     map (\<lambda>j. X ! j) (filter (strict_local_max X) [0..<length X])
                     @ map (\<lambda>j. X ! j) (filter (strict_local_min X) [0..<length X])
                 \<and> I_list ! k = replicate (length (Bif_list ! k)) (pars ! k))"
proof -
  have "\<forall>p \<in> set pars. \<exists>sol. odeint model X0 t p = Inr sol"
    using assms(4) by blast
  from Biforcation_returns [where arange = arange and odeint = odeint and model = model,
      OF assms(1,2) this]
  obtain I_list Bif_list where
    run: "Biforcation arange odeint model par_start par_stop par_tot t0 t_stop dt t_relax = Inr (I_list, Bif_list)"
    by blast
  from Biforcation_InrD [OF run] assms(1,2)
  have len: "length I_list = length pars" "length Bif_list = length pars"
    and body: "\<And>k. k < length pars \<Longrightarrow>
          Biforcation_body odeint model t t_relax (pars ! k) = Inr (I_list ! k, Bif_list ! k)"
    by auto
  have "\<exists>sol X. odeint model X0 t (pars ! k) = Inr sol
          \<and> X = map fst sol
          \<and> relax_window sol t_relax = X
          \<and> Bif_list ! k = Bif_val_of X
          \<and> Bif_list ! k =
              map (\<lambda>j. X ! j) (filter (strict_local_max X) [0..<length X])
              @ map (\<lambda>j. X ! j) (filter (strict_local_min X) [0..<length X])
          \<and> I_list ! k = replicate (length (Bif_list ! k)) (pars ! k)"
    if k: "k < length pars" for k
  proof -
    from assms(4) k obtain sol where sol: "odeint model X0 t (pars ! k) = Inr sol"
      and short: "length sol < nat \<bar>t_relax\<bar>"
      by (meson nth_mem)
    have w: "relax_window sol t_relax = map fst sol"
      using assms(3) short by (simp add: relax_window_negative)
    from body [OF k] sol w
    have B: "Bif_list ! k = Bif_val_of (map fst sol)"
      and I: "I_list ! k = replicate (length (Bif_list ! k)) (pars ! k)"
      by (auto simp: Biforcation_body_Inr)
    from B have "Bif_list ! k =
        map (\<lambda>j. map fst sol ! j) (filter (strict_local_max (map fst sol)) [0..<length (map fst sol)])
        @ map (\<lambda>j. map fst sol ! j) (filter (strict_local_min (map fst sol)) [0..<length (map fst sol)])"
      by (simp only: Bif_val_of_spec)
    with sol w B I show ?thesis
      by blast
  qed
  then show ?thesis
    using run len by blast
qed

theorem relaxation_window_overflow_clamps_witness:
  "\<exists>t pars I_list Bif_list.
     exact_arange 0 5 1 = Inr t \<and> t = [0, 1, 2, 3, 4]
     \<and> linspace 0 1 2 = Inr pars \<and> pars = [0, 1]
     \<and> (\<forall>p \<in> set pars. \<exists>sol. zigzag () X0 t p = Inr sol \<and> length sol < nat \<bar>- 30\<bar>)
     \<and> I_list = [[0, 0, 0], [1, 1, 1]] \<and> Bif_list = [[1, 1, 0], [1, 1, 0]]
     \<and> Biforcation exact_arange zigzag () 0 1 2 0 5 1 (- 30) = Inr (I_list, Bif_list)
     \<and> length I_list = length pars \<and> length Bif_list = length pars
     \<and> (\<forall>k < length pars. \<exists>sol X. zigzag () X0 t (pars ! k) = Inr sol
           \<and> X = map fst sol
           \<and> relax_window sol (- 30) = X
           \<and> Bif_list ! k = Bif_val_of X
           \<and> Bif_list ! k =
               map (\<lambda>j. X ! j) (filter (strict_local_max X) [0..<length X])
               @ map (\<lambda>j. X ! j) (filter (strict_local_min X) [0..<length X])
           \<and> I_list ! k = replicate (length (Bif_list ! k)) (pars ! k))"
proof -
  have neg: "(- 30 :: int) < 0"
    by simp
  have short: "\<forall>p \<in> set [0, 1]. \<exists>sol. zigzag () X0 [0, 1, 2, 3, 4] p = Inr sol
                  \<and> length sol < nat \<bar>- 30\<bar>"
    by (simp add: zigzag_five)
  from relaxation_window_overflow_clamps [where arange = exact_arange and odeint = zigzag
      and model = "()", OF grid_five two_values neg short]
  obtain I_list where "\<exists>Bif_list.
      Biforcation exact_arange zigzag () 0 1 2 0 5 1 (- 30) = Inr (I_list, Bif_list)
      \<and> length I_list = length [0, 1 :: real] \<and> length Bif_list = length [0, 1 :: real]
      \<and> (\<forall>k < length [0, 1 :: real]. \<exists>sol X. zigzag () X0 [0, 1, 2, 3, 4] ([0, 1] ! k) = Inr sol
           \<and> X = map fst sol
           \<and> relax_window sol (- 30) = X
           \<and> Bif_list ! k = Bif_val_of X
           \<and> Bif_list ! k =
               map (\<lambda>j. X ! j) (filter (strict_local_max X) [0..<length X])
               @ map (\<lambda>j. X ! j) (filter (strict_local_min X) [0..<length X])
           \<and> I_list ! k = replicate (length (Bif_list ! k)) ([0, 1] ! k))" ..
  then obtain Bif_list where run:
      "Biforcation exact_arange zigzag () 0 1 2 0 5 1 (- 30) = Inr (I_list, Bif_list)"
    and len: "length I_list = length [0, 1 :: real]" "length Bif_list = length [0, 1 :: real]"
    and each: "\<forall>k < length [0, 1 :: real]. \<exists>sol X. zigzag () X0 [0, 1, 2, 3, 4] ([0, 1] ! k) = Inr sol
           \<and> X = map fst sol
           \<and> relax_window sol (- 30) = X
           \<and> Bif_list ! k = Bif_val_of X
           \<and> Bif_list ! k =
               map (\<lambda>j. X ! j) (filter (strict_local_max X) [0..<length X])
               @ map (\<lambda>j. X ! j) (filter (strict_local_min X) [0..<length X])
           \<and> I_list ! k = replicate (length (Bif_list ! k)) ([0, 1] ! k)"
    by (elim exE conjE)
  from run zigzag_overflow_values
  have named: "I_list = [[0, 0, 0], [1, 1, 1]]" "Bif_list = [[1, 1, 0], [1, 1, 0]]"
    by simp_all
  show ?thesis
    using grid_five two_values short named run len each
    by (intro exI conjI) (assumption | rule refl)+
qed




section \<open>Independence of the passes\<close>

lemma zigzag_cold_agrees:
  "\<forall>p \<in> set pars. zigzag_cold () X0 t p = zigzag () X0 t p"
  by (simp add: zigzag_cold_def)

lemma one_value_twice: "linspace 1 1 2 = Inr [1, 1]"
  by code_simp

lemma zigzag_one_value_twice:
  "Biforcation exact_arange zigzag () 1 1 2 0 5 1 (- 5) = Inr ([[1, 1, 1], [1, 1, 1]], [[1, 1, 0], [1, 1, 0]])"
  by code_simp

text \<open>
  Claim C9. The engine consults the integrator only on the calls
  \<open>(model, X0, t, p)\<close> for the swept values \<open>p\<close>, with the fixed initial state
  \<open>X0\<close> and the one time grid \<open>t\<close>: two pairs of integrator and model that
  answer these calls alike give the same result, so two runs on the same inputs
  give the same dataset. In a returned dataset the entry at position \<open>k\<close> is the
  result of the loop body for the \<open>k\<close>-th parameter value alone; nothing of the
  other passes enters it, and equal parameter values get equal entries wherever
  they stand in the sweep.
\<close>

theorem sweep_independence:
  assumes "arange t0 t_stop dt = Inr t" and "linspace par_start par_stop par_tot = Inr pars"
  shows "((\<forall>p \<in> set pars. odeint' model' X0 t p = odeint model X0 t p) \<longrightarrow>
            Biforcation arange odeint' model' par_start par_stop par_tot t0 t_stop dt t_relax
              = Biforcation arange odeint model par_start par_stop par_tot t0 t_stop dt t_relax)
         \<and> (\<forall>I_list Bif_list.
               Biforcation arange odeint model par_start par_stop par_tot t0 t_stop dt t_relax
                 = Inr (I_list, Bif_list) \<longrightarrow>
               (\<forall>k < length pars.
                  Biforcation_body odeint model t t_relax (pars ! k) = Inr (I_list ! k, Bif_list ! k))
               \<and> (\<forall>j < length pars. \<forall>k < length pars. pars ! j = pars ! k \<longrightarrow>
                     I_list ! j = I_list ! k \<and> Bif_list ! j = Bif_list ! k))"
proof -
  have cong: "Biforcation arange odeint' model' par_start par_stop par_tot t0 t_stop dt t_relax
              = Biforcation arange odeint model par_start par_stop par_tot t0 t_stop dt t_relax"
    if "\<forall>p \<in> set pars. odeint' model' X0 t p = odeint model X0 t p"
    using assms Biforcation_loop_cong [where odeint' = odeint' and model' = model' and odeint = odeint and model = model, OF that] by (simp add: Biforcation_def)
  have each: "(\<forall>k < length pars.
                  Biforcation_body odeint model t t_relax (pars ! k) = Inr (I_list ! k, Bif_list ! k))
               \<and> (\<forall>j < length pars. \<forall>k < length pars. pars ! j = pars ! k \<longrightarrow>
                     I_list ! j = I_list ! k \<and> Bif_list ! j = Bif_list ! k)"
    if run: "Biforcation arange odeint model par_start par_stop par_tot t0 t_stop dt t_relax
                 = Inr (I_list, Bif_list)" for I_list Bif_list
  proof -
    from Biforcation_InrD [OF run] assms
    have body: "\<And>k. k < length pars \<Longrightarrow>
          Biforcation_body odeint model t t_relax (pars ! k) = Inr (I_list ! k, Bif_list ! k)"
      by auto
    have "I_list ! j = I_list ! k \<and> Bif_list ! j = Bif_list ! k"
      if "j < length pars" "k < length pars" "pars ! j = pars ! k" for j k
      using body [OF that(1)] body [OF that(2)] that(3) by simp
    then show ?thesis
      using body by blast
  qed
  show ?thesis
    using cong each by blast
qed

theorem sweep_independence_witness:
  "Biforcation exact_arange zigzag_cold () 0 1 2 0 5 1 (- 5) = Biforcation exact_arange zigzag () 0 1 2 0 5 1 (- 5)
   \<and> Biforcation_body zigzag () [0, 1, 2, 3, 4] (- 5) ([1, 1] ! 1) =
        Inr ([[1, 1, 1], [1, 1, 1]] ! 1, [[1, 1, 0], [1, 1, 0]] ! 1)
   \<and> [[1, 1, 1], [1, 1, 1 :: real]] ! 0 = [[1, 1, 1], [1, 1, 1]] ! 1
   \<and> [[1, 1, 0], [1, 1, 0 :: real]] ! 0 = [[1, 1, 0], [1, 1, 0]] ! 1"
proof -
  note first = sweep_independence [where arange = exact_arange and odeint' = zigzag_cold
      and model' = "()" and odeint = zigzag and model = "()" and t_relax = "- 5",
      OF grid_five two_values]
  note second = sweep_independence [where arange = exact_arange and odeint' = zigzag
      and model' = "()" and odeint = zigzag and model = "()" and t_relax = "- 5",
      OF grid_five one_value_twice]
  have same: "Biforcation exact_arange zigzag_cold () 0 1 2 0 5 1 (- 5) = Biforcation exact_arange zigzag () 0 1 2 0 5 1 (- 5)"
    using first zigzag_cold_agrees by blast
  have k: "(1::nat) < length [1, 1 :: real]" and j: "(0::nat) < length [1, 1 :: real]"
    and eq: "[1, 1 :: real] ! 0 = [1, 1] ! 1"
    by simp_all
  have body: "Biforcation_body zigzag () [0, 1, 2, 3, 4] (- 5) ([1, 1] ! 1) =
        Inr ([[1, 1, 1], [1, 1, 1]] ! 1, [[1, 1, 0], [1, 1, 0]] ! 1)"
    using second zigzag_one_value_twice k by blast
  have equal: "[[1, 1, 1], [1, 1, 1 :: real]] ! 0 = [[1, 1, 1], [1, 1, 1]] ! 1
      \<and> [[1, 1, 0], [1, 1, 0 :: real]] ! 0 = [[1, 1, 0], [1, 1, 0]] ! 1"
    using second zigzag_one_value_twice j k eq by blast
  from same body equal show ?thesis
    by blast
qed

end
